theory Spec2Isabelle
  imports Complex_Main "HOL-Library.Log_Nat"
begin


section \<open>Python numbers: unbounded integers and binary64 floats\<close>

text \<open>
  The functions of \<^verbatim>\<open>Wastemanagement.py\<close> compute on Python numbers. A Python \<^verbatim>\<open>int\<close> is
  an unbounded integer. A Python \<^verbatim>\<open>float\<close> is an IEEE 754 binary64 value: a finite
  value is kept as the rational number it denotes, next to the two infinities and NaN.
  The sign of zero is not kept: none of the functions below can observe it (they compare,
  add, multiply, round to an integer, and division by either zero raises).
  Every float operation rounds the exact result to the nearest binary64 value, ties to
  the even significand.
\<close>

datatype py_error = KeyError | OverflowError | ValueError | ZeroDivisionError

datatype pyfloat = Fin rat | PInf | NInf | NaN

datatype pynum = PInt int | PFloat pyfloat

definition bnd :: "'e + 'a \<Rightarrow> ('a \<Rightarrow> 'e + 'b) \<Rightarrow> 'e + 'b" where
  "bnd m f = (case m of Inl e \<Rightarrow> Inl e | Inr x \<Rightarrow> f x)"

subsection \<open>Rounding a rational to binary64\<close>

definition rne :: "rat \<Rightarrow> int" where
  \<comment> \<open>round to the nearest integer, ties to even\<close>
  "rne x = (let f = \<lfloor>x\<rfloor>; r = x - of_int f in
            if r < 1 / 2 then f
            else if 1 / 2 < r then f + 1
            else if even f then f else f + 1)"

definition pow2 :: "int \<Rightarrow> rat" where
  "pow2 k = (if 0 \<le> k then 2 ^ nat k else 1 / 2 ^ nat (- k))"

definition ilog2 :: "rat \<Rightarrow> int" where
  \<comment> \<open>the binary exponent of a positive rational: \<open>2^e \<le> x < 2^(e+1)\<close>\<close>
  "ilog2 x = (case quotient_of x of (n, d) \<Rightarrow>
               let k = bitlen n - bitlen d in if pow2 k \<le> x then k else k - 1)"

definition fexp :: "rat \<Rightarrow> int" where
  \<comment> \<open>exponent of the last place: 53 significant bits, subnormals below \<open>2^-1022\<close>\<close>
  "fexp x = max (ilog2 \<bar>x\<bar> - 52) (- 1074)"

definition fl :: "rat \<Rightarrow> rat" where
  "fl x = (if x = 0 then 0 else of_int (rne (x / pow2 (fexp x))) * pow2 (fexp x))"

definition fmax :: rat where
  \<comment> \<open>a rounded magnitude of \<open>2^1024\<close> or more overflows\<close>
  "fmax = 2 ^ 1024"

definition fround :: "rat \<Rightarrow> pyfloat" where
  "fround x = (let y = fl x in
               if fmax \<le> y then PInf else if y \<le> - fmax then NInf else Fin y)"

subsection \<open>Float arithmetic\<close>

fun fneg :: "pyfloat \<Rightarrow> pyfloat" where
  "fneg (Fin a) = Fin (- a)"
| "fneg PInf = NInf"
| "fneg NInf = PInf"
| "fneg NaN = NaN"

fun fadd :: "pyfloat \<Rightarrow> pyfloat \<Rightarrow> pyfloat" where
  "fadd NaN _ = NaN"
| "fadd _ NaN = NaN"
| "fadd PInf NInf = NaN"
| "fadd NInf PInf = NaN"
| "fadd PInf _ = PInf"
| "fadd _ PInf = PInf"
| "fadd NInf _ = NInf"
| "fadd _ NInf = NInf"
| "fadd (Fin a) (Fin b) = fround (a + b)"

definition fsub :: "pyfloat \<Rightarrow> pyfloat \<Rightarrow> pyfloat" where
  "fsub a b = fadd a (fneg b)"

fun fsgn :: "pyfloat \<Rightarrow> int" where
  "fsgn (Fin a) = (if a < 0 then - 1 else if a = 0 then 0 else 1)"
| "fsgn PInf = 1"
| "fsgn NInf = - 1"
| "fsgn NaN = 0"

definition finf :: "int \<Rightarrow> pyfloat" where
  "finf s = (if s = 0 then NaN else if 0 < s then PInf else NInf)"

fun fmul :: "pyfloat \<Rightarrow> pyfloat \<Rightarrow> pyfloat" where
  "fmul NaN _ = NaN"
| "fmul _ NaN = NaN"
| "fmul (Fin a) (Fin b) = fround (a * b)"
| "fmul a b = finf (fsgn a * fsgn b)"

fun fdiv :: "pyfloat \<Rightarrow> pyfloat \<Rightarrow> py_error + pyfloat" where
  "fdiv a (Fin b) =
     (if b = 0 then Inl ZeroDivisionError
      else case a of Fin x \<Rightarrow> Inr (fround (x / b))
                   | NaN \<Rightarrow> Inr NaN
                   | _ \<Rightarrow> Inr (finf (fsgn a * fsgn (Fin b))))"
| "fdiv NaN _ = Inr NaN"
| "fdiv _ NaN = Inr NaN"
| "fdiv (Fin a) _ = Inr (Fin 0)"
| "fdiv _ _ = Inr NaN"

subsection \<open>Arithmetic, comparison and rounding of Python numbers\<close>

definition to_float :: "int \<Rightarrow> py_error + pyfloat" where
  \<comment> \<open>\<^verbatim>\<open>float(n)\<close>, as each mixed operation does it: correctly rounded, or OverflowError\<close>
  "to_float n = (case fround (of_int n) of Fin y \<Rightarrow> Inr (Fin y) | _ \<Rightarrow> Inl OverflowError)"

fun as_float :: "pynum \<Rightarrow> py_error + pyfloat" where
  "as_float (PInt n) = to_float n"
| "as_float (PFloat x) = Inr x"

fun py_add :: "pynum \<Rightarrow> pynum \<Rightarrow> py_error + pynum" where
  "py_add (PInt a) (PInt b) = Inr (PInt (a + b))"
| "py_add a b = bnd (as_float a) (\<lambda>x. bnd (as_float b) (\<lambda>y. Inr (PFloat (fadd x y))))"

fun py_sub :: "pynum \<Rightarrow> pynum \<Rightarrow> py_error + pynum" where
  "py_sub (PInt a) (PInt b) = Inr (PInt (a - b))"
| "py_sub a b = bnd (as_float a) (\<lambda>x. bnd (as_float b) (\<lambda>y. Inr (PFloat (fsub x y))))"

fun py_mul :: "pynum \<Rightarrow> pynum \<Rightarrow> py_error + pynum" where
  "py_mul (PInt a) (PInt b) = Inr (PInt (a * b))"
| "py_mul a b = bnd (as_float a) (\<lambda>x. bnd (as_float b) (\<lambda>y. Inr (PFloat (fmul x y))))"

fun py_truediv :: "pynum \<Rightarrow> pynum \<Rightarrow> py_error + pynum" where
  "py_truediv (PInt a) (PInt b) =
     (if b = 0 then Inl ZeroDivisionError
      else case fround (of_int a / of_int b) of
             Fin y \<Rightarrow> Inr (PFloat (Fin y)) | _ \<Rightarrow> Inl OverflowError)"
| "py_truediv a b = bnd (as_float a) (\<lambda>x. bnd (as_float b) (\<lambda>y.
     bnd (fdiv x y) (\<lambda>z. Inr (PFloat z))))"

fun ext :: "pynum \<Rightarrow> pyfloat" where
  \<comment> \<open>the exact value of a number; Python compares an int with a float exactly\<close>
  "ext (PInt n) = Fin (of_int n)"
| "ext (PFloat x) = x"

fun flt :: "pyfloat \<Rightarrow> pyfloat \<Rightarrow> bool" where
  "flt NaN _ = False"
| "flt _ NaN = False"
| "flt (Fin a) (Fin b) = (a < b)"
| "flt _ NInf = False"
| "flt PInf _ = False"
| "flt _ _ = True"

fun fle :: "pyfloat \<Rightarrow> pyfloat \<Rightarrow> bool" where
  "fle NaN _ = False"
| "fle _ NaN = False"
| "fle (Fin a) (Fin b) = (a \<le> b)"
| "fle NInf _ = True"
| "fle _ PInf = True"
| "fle _ _ = False"

definition py_le :: "pynum \<Rightarrow> pynum \<Rightarrow> bool" where
  "py_le a b = fle (ext a) (ext b)"

definition py_lt :: "pynum \<Rightarrow> pynum \<Rightarrow> bool" where
  "py_lt a b = flt (ext a) (ext b)"

definition py_gt :: "pynum \<Rightarrow> pynum \<Rightarrow> bool" where
  "py_gt a b = flt (ext b) (ext a)"

definition py_max :: "pynum \<Rightarrow> pynum \<Rightarrow> pynum" where
  \<comment> \<open>\<^verbatim>\<open>max(a, b)\<close> keeps its first argument unless the second is greater\<close>
  "py_max a b = (if py_gt b a then b else a)"

definition py_min :: "pynum \<Rightarrow> pynum \<Rightarrow> pynum" where
  \<comment> \<open>\<^verbatim>\<open>min(a, b)\<close> keeps its first argument unless the second is smaller\<close>
  "py_min a b = (if py_lt b a then b else a)"

fun py_round :: "pynum \<Rightarrow> py_error + int" where
  \<comment> \<open>\<^verbatim>\<open>round(x)\<close> with one argument: an int, ties to even\<close>
  "py_round (PInt n) = Inr n"
| "py_round (PFloat (Fin a)) = Inr (rne a)"
| "py_round (PFloat NaN) = Inl ValueError"
| "py_round (PFloat _) = Inl OverflowError"

fun is_integral :: "pynum \<Rightarrow> bool" where
  \<comment> \<open>the number is an int, or a float whose value is a whole number\<close>
  "is_integral (PInt n) = True"
| "is_integral (PFloat (Fin a)) = (a = of_int \<lfloor>a\<rfloor>)"
| "is_integral (PFloat _) = False"

definition lit :: "rat \<Rightarrow> pynum" where
  \<comment> \<open>a decimal float literal of the source denotes the nearest binary64 value\<close>
  "lit q = PFloat (fround q)"

section \<open>The what-if simulator\<close>

record sim_result =
  complianceScore :: pynum
  costDeltaPct :: int
  availabilityRisk :: pynum
  eprGapReduction :: int

definition simulate ::
  "string \<Rightarrow> string \<Rightarrow> pynum \<Rightarrow> pynum \<Rightarrow> bool \<Rightarrow> pynum \<Rightarrow> py_error + sim_result" where
  "simulate material_from material_to recycled_pct lead_time_days traceability base_cost_per_unit =
    (let compliance_target = PInt 20;
         material_boost = (if material_from = ''PVC'' \<and> material_to = ''PET'' then PInt 12 else PInt 4)
     in
     bnd (py_add (PInt 60) material_boost) (\<lambda>s0.
     bnd (py_sub recycled_pct compliance_target) (\<lambda>d0.
     bnd (py_add s0 (py_max (PInt 0) d0)) (\<lambda>s1.
     let compliance_score = py_min (PInt 100) s1;
         material_cost_factor = (if material_to = ''PET'' then lit (108 / 100) else lit 1);
         traceability_cost = (if traceability then lit (2 / 100) else PInt 0)
     in
     bnd (py_mul base_cost_per_unit material_cost_factor) (\<lambda>c0.
     bnd (py_add (PInt 1) traceability_cost) (\<lambda>t0.
     bnd (py_mul c0 t0) (\<lambda>new_cost.
     bnd (py_sub new_cost base_cost_per_unit) (\<lambda>c1.
     bnd (py_truediv c1 base_cost_per_unit) (\<lambda>c2.
     bnd (py_mul c2 (PInt 100)) (\<lambda>c3.
     bnd (py_round c3) (\<lambda>cost_delta_pct.
     let base_risk = PInt 20 in
     bnd (py_sub lead_time_days (PInt 10)) (\<lambda>l0.
     bnd (py_mul l0 (PInt 2)) (\<lambda>l1.
     let lead_risk = py_max (PInt 0) l1 in
     bnd (py_sub recycled_pct compliance_target) (\<lambda>r0.
     bnd (py_mul r0 (lit (8 / 10))) (\<lambda>r1.
     let recycled_risk = py_max (PInt 0) r1 in
     bnd (py_add base_risk lead_risk) (\<lambda>a0.
     bnd (py_add a0 recycled_risk) (\<lambda>a1.
     let availability_risk = py_min (PInt 95) a1 in
     bnd (py_sub recycled_pct compliance_target) (\<lambda>e0.
     bnd (py_mul e0 (PInt 5)) (\<lambda>e1.
     bnd (py_round e1) (\<lambda>epr_gap_reduction.
     Inr \<lparr>complianceScore = compliance_score,
          costDeltaPct = cost_delta_pct,
          availabilityRisk = availability_risk,
          eprGapReduction = epr_gap_reduction\<rparr>))))))))))))))))))))"

section \<open>The MCDA scorer\<close>

text \<open>
  \<^verbatim>\<open>metrics\<close> is a dictionary that is only read by key: a map. \<^verbatim>\<open>weights\<close> is
  iterated, and a Python dictionary iterates in insertion order: an association list
  with distinct keys. \<^verbatim>\<open>sum\<close> starts from the int 0 and adds the items from left to
  right, each item being computed (the look-up in \<^verbatim>\<open>normalized\<close>, then the product)
  just before it is added, so that the first failing step ends the call.
\<close>

type_synonym metrics = "string \<rightharpoonup> pynum"

type_synonym weights = "(string \<times> pynum) list"

definition getitem :: "(string \<rightharpoonup> pynum) \<Rightarrow> string \<Rightarrow> py_error + pynum" where
  "getitem m k = (case m k of None \<Rightarrow> Inl KeyError | Some v \<Rightarrow> Inr v)"

definition normalized :: "metrics \<Rightarrow> py_error + (string \<rightharpoonup> pynum)" where
  "normalized metrics =
     bnd (getitem metrics ''compliance'') (\<lambda>compliance.
     bnd (getitem metrics ''cost'') (\<lambda>cost.
     bnd (py_sub (PInt 100) cost) (\<lambda>cost_inv.
     bnd (getitem metrics ''availability'') (\<lambda>availability.
     bnd (getitem metrics ''recyclability'') (\<lambda>recyclability.
     bnd (getitem metrics ''traceability'') (\<lambda>traceability.
     Inr [''compliance'' \<mapsto> compliance,
          ''cost'' \<mapsto> cost_inv,
          ''availability'' \<mapsto> availability,
          ''recyclability'' \<mapsto> recyclability,
          ''traceability'' \<mapsto> traceability]))))))"

fun weighted_sum :: "(string \<rightharpoonup> pynum) \<Rightarrow> pynum \<Rightarrow> weights \<Rightarrow> py_error + pynum" where
  "weighted_sum nz acc [] = Inr acc"
| "weighted_sum nz acc ((k, w) # ws) =
     bnd (getitem nz k) (\<lambda>v.
     bnd (py_mul v w) (\<lambda>p.
     bnd (py_add acc p) (\<lambda>acc'.
     weighted_sum nz acc' ws)))"

definition mcda_score :: "metrics \<Rightarrow> weights \<Rightarrow> py_error + int" where
  "mcda_score metrics weights =
     bnd (normalized metrics) (\<lambda>nz.
     bnd (weighted_sum nz (PInt 0) weights) py_round)"

definition criteria :: "string list" where
  "criteria = [''compliance'', ''cost'', ''availability'', ''recyclability'', ''traceability'']"

fun fin_num :: "pynum \<Rightarrow> bool" where
  \<comment> \<open>an int or a finite float\<close>
  "fin_num (PInt n) = True"
| "fin_num (PFloat (Fin a)) = True"
| "fin_num (PFloat _) = False"

fun val :: "pynum \<Rightarrow> rat" where
  \<comment> \<open>the exact value of an int or a finite float\<close>
  "val (PInt n) = of_int n"
| "val (PFloat (Fin a)) = a"
| "val (PFloat _) = 0"

definition in_range :: "rat \<Rightarrow> rat \<Rightarrow> pynum \<Rightarrow> bool" where
  "in_range lo hi x = (fin_num x \<and> lo \<le> val x \<and> val x \<le> hi)"


section \<open>The deadline calculator\<close>

text \<open>
  \<^verbatim>\<open>days_to_deadline\<close> parses its argument with \<^verbatim>\<open>datetime.strptime(s, '%Y-%m-%d')\<close>,
  reads the current date and subtracts. The library compiles the format to the regular
  expression
  \<^verbatim>\<open>(?P<Y>\d\d\d\d)-(?P<m>1[0-2]|0[1-9]|[1-9])-(?P<d>3[0-1]|[1-2]\d|0[1-9]|[1-9]| [1-9])\<close>,
  matches it at the start of the string, rejects a match that leaves characters over,
  and builds a date from the three numbers, which rejects year 0 and a day that the
  month does not have. Every rejection is a \<^verbatim>\<open>ValueError\<close>. Strings are taken over the
  code points below 256, where the decimal digits are \<^verbatim>\<open>0\<close> to \<^verbatim>\<open>9\<close>. The current date
  is an argument of the model.
\<close>

record date =
  year :: int
  month :: int
  day :: int

definition is_leap :: "int \<Rightarrow> bool" where
  "is_leap y = (y mod 4 = 0 \<and> (y mod 100 \<noteq> 0 \<or> y mod 400 = 0))"

definition days_in_month :: "int \<Rightarrow> int \<Rightarrow> int" where
  "days_in_month y m =
     (if m = 2 \<and> is_leap y then 29
      else [31, 28, 31, 30, 31, 30, 31, 31, 30, 31, 30, 31] ! nat (m - 1))"

definition days_before_year :: "int \<Rightarrow> int" where
  "days_before_year yr = (let y = yr - 1 in y * 365 + y div 4 - y div 100 + y div 400)"

definition days_before_month :: "int \<Rightarrow> int \<Rightarrow> int" where
  "days_before_month y m =
     [0, 31, 59, 90, 120, 151, 181, 212, 243, 273, 304, 334] ! nat (m - 1)
       + (if 2 < m \<and> is_leap y then 1 else 0)"

definition valid_date :: "date \<Rightarrow> bool" where
  \<comment> \<open>the check of the date constructor\<close>
  "valid_date d = (1 \<le> year d \<and> year d \<le> 9999 \<and> 1 \<le> month d \<and> month d \<le> 12
     \<and> 1 \<le> day d \<and> day d \<le> days_in_month (year d) (month d))"

definition valid_md :: "date \<Rightarrow> bool" where
  \<comment> \<open>month and day are those of a calendar date, whatever the year\<close>
  "valid_md d = (1 \<le> month d \<and> month d \<le> 12 \<and> 1 \<le> day d
     \<and> day d \<le> days_in_month (year d) (month d))"

definition toordinal :: "date \<Rightarrow> int" where
  "toordinal d = days_before_year (year d) + days_before_month (year d) (month d) + day d"

definition make_date :: "int \<Rightarrow> int \<Rightarrow> int \<Rightarrow> py_error + date" where
  "make_date y m d =
     (let r = \<lparr>year = y, month = m, day = d\<rparr> in if valid_date r then Inr r else Inl ValueError)"

definition is_digit :: "char \<Rightarrow> bool" where
  "is_digit c = (48 \<le> (of_char c :: nat) \<and> (of_char c :: nat) \<le> 57)"

definition in_chars :: "char \<Rightarrow> char \<Rightarrow> char \<Rightarrow> bool" where
  \<comment> \<open>a character class \<^verbatim>\<open>[a-b]\<close>\<close>
  "in_chars a b c = ((of_char a :: nat) \<le> of_char c \<and> (of_char c :: nat) \<le> of_char b)"

definition digit_val :: "char \<Rightarrow> int" where
  "digit_val c = int (of_char c) - 48"

fun match_Y :: "string \<Rightarrow> (int \<times> string) option" where
  \<comment> \<open>\<^verbatim>\<open>\d\d\d\d\<close>\<close>
  "match_Y (a # b # c # d # rest) =
     (if is_digit a \<and> is_digit b \<and> is_digit c \<and> is_digit d
      then Some (1000 * digit_val a + 100 * digit_val b + 10 * digit_val c + digit_val d, rest)
      else None)"
| "match_Y _ = None"

fun match_dash :: "string \<Rightarrow> string option" where
  "match_dash (c # rest) = (if c = CHR ''-'' then Some rest else None)"
| "match_dash [] = None"

fun month_alt1 :: "string \<Rightarrow> (int \<times> string) option" where
  \<comment> \<open>\<^verbatim>\<open>1[0-2]\<close>\<close>
  "month_alt1 (a # b # rest) =
     (if a = CHR ''1'' \<and> in_chars CHR ''0'' CHR ''2'' b then Some (10 + digit_val b, rest) else None)"
| "month_alt1 _ = None"

fun month_alt2 :: "string \<Rightarrow> (int \<times> string) option" where
  \<comment> \<open>\<^verbatim>\<open>0[1-9]\<close>\<close>
  "month_alt2 (a # b # rest) =
     (if a = CHR ''0'' \<and> in_chars CHR ''1'' CHR ''9'' b then Some (digit_val b, rest) else None)"
| "month_alt2 _ = None"

fun month_alt3 :: "string \<Rightarrow> (int \<times> string) option" where
  \<comment> \<open>\<^verbatim>\<open>[1-9]\<close>\<close>
  "month_alt3 (a # rest) =
     (if in_chars CHR ''1'' CHR ''9'' a then Some (digit_val a, rest) else None)"
| "month_alt3 [] = None"

fun day_alt1 :: "string \<Rightarrow> (int \<times> string) option" where
  \<comment> \<open>\<^verbatim>\<open>3[0-1]\<close>\<close>
  "day_alt1 (a # b # rest) =
     (if a = CHR ''3'' \<and> in_chars CHR ''0'' CHR ''1'' b then Some (30 + digit_val b, rest) else None)"
| "day_alt1 _ = None"

fun day_alt2 :: "string \<Rightarrow> (int \<times> string) option" where
  \<comment> \<open>\<^verbatim>\<open>[1-2]\d\<close>\<close>
  "day_alt2 (a # b # rest) =
     (if in_chars CHR ''1'' CHR ''2'' a \<and> is_digit b then Some (10 * digit_val a + digit_val b, rest)
      else None)"
| "day_alt2 _ = None"

fun day_alt3 :: "string \<Rightarrow> (int \<times> string) option" where
  \<comment> \<open>\<^verbatim>\<open>0[1-9]\<close>\<close>
  "day_alt3 (a # b # rest) =
     (if a = CHR ''0'' \<and> in_chars CHR ''1'' CHR ''9'' b then Some (digit_val b, rest) else None)"
| "day_alt3 _ = None"

fun day_alt4 :: "string \<Rightarrow> (int \<times> string) option" where
  \<comment> \<open>\<^verbatim>\<open>[1-9]\<close>\<close>
  "day_alt4 (a # rest) =
     (if in_chars CHR ''1'' CHR ''9'' a then Some (digit_val a, rest) else None)"
| "day_alt4 [] = None"

fun day_alt5 :: "string \<Rightarrow> (int \<times> string) option" where
  \<comment> \<open>a space and \<^verbatim>\<open>[1-9]\<close>\<close>
  "day_alt5 (a # b # rest) =
     (if a = CHR '' '' \<and> in_chars CHR ''1'' CHR ''9'' b then Some (digit_val b, rest) else None)"
| "day_alt5 _ = None"

definition match_d :: "string \<Rightarrow> (int \<times> string) option" where
  \<comment> \<open>the last group: the first alternative that matches decides where the match ends\<close>
  "match_d s =
     (case day_alt1 s of Some r \<Rightarrow> Some r | None \<Rightarrow>
      case day_alt2 s of Some r \<Rightarrow> Some r | None \<Rightarrow>
      case day_alt3 s of Some r \<Rightarrow> Some r | None \<Rightarrow>
      case day_alt4 s of Some r \<Rightarrow> Some r | None \<Rightarrow>
      day_alt5 s)"

definition match_tail :: "int \<Rightarrow> (int \<times> string) option \<Rightarrow> (int \<times> int \<times> int \<times> string) option" where
  \<comment> \<open>what follows one alternative of the month group: the dash and the day group\<close>
  "match_tail y alt =
     (case alt of None \<Rightarrow> None | Some (m, r) \<Rightarrow>
      case match_dash r of None \<Rightarrow> None | Some r' \<Rightarrow>
      case match_d r' of None \<Rightarrow> None | Some (d, r'') \<Rightarrow> Some (y, m, d, r''))"

definition regex_match :: "string \<Rightarrow> (int \<times> int \<times> int \<times> string) option" where
  \<comment> \<open>the alternatives of the month group are tried in order; one whose continuation
      fails is given up for the next\<close>
  "regex_match s =
     (case match_Y s of None \<Rightarrow> None | Some (y, r) \<Rightarrow>
      case match_dash r of None \<Rightarrow> None | Some r' \<Rightarrow>
      case match_tail y (month_alt1 r') of Some res \<Rightarrow> Some res | None \<Rightarrow>
      case match_tail y (month_alt2 r') of Some res \<Rightarrow> Some res | None \<Rightarrow>
      match_tail y (month_alt3 r'))"

definition strptime_date :: "string \<Rightarrow> py_error + date" where
  "strptime_date s =
     (case regex_match s of
        None \<Rightarrow> Inl ValueError
      | Some (y, m, d, rest) \<Rightarrow> if rest \<noteq> [] then Inl ValueError else make_date y m d)"

definition days_to_deadline :: "date \<Rightarrow> string \<Rightarrow> py_error + int" where
  "days_to_deadline today deadline_str =
     bnd (strptime_date deadline_str) (\<lambda>deadline.
     Inr (max 0 (toordinal deadline - toordinal today)))"

subsection \<open>Calendar notions the claims are stated with\<close>

definition date_before :: "date \<Rightarrow> date \<Rightarrow> bool" where
  \<comment> \<open>strictly earlier in the calendar\<close>
  "date_before a b = (year a < year b \<or> (year a = year b \<and>
     (month a < month b \<or> (month a = month b \<and> day a < day b))))"

definition next_day :: "date \<Rightarrow> date" where
  \<comment> \<open>the day after\<close>
  "next_day d =
     (if day d < days_in_month (year d) (month d) then d\<lparr>day := day d + 1\<rparr>
      else if month d < 12 then d\<lparr>month := month d + 1, day := 1\<rparr>
      else \<lparr>year = year d + 1, month = 1, day = 1\<rparr>)"

definition iso_form :: "string \<Rightarrow> bool" where
  \<comment> \<open>the ISO 8601 calendar form: four digits, a dash, two digits, a dash, two digits\<close>
  "iso_form s = (length s = 10 \<and> s ! 4 = CHR ''-'' \<and> s ! 7 = CHR ''-''
     \<and> list_all is_digit (take 4 s) \<and> list_all is_digit (take 2 (drop 5 s))
     \<and> list_all is_digit (drop 8 s))"


section \<open>Properties of the rounding\<close>

lemma pow2_powi: "pow2 k = 2 powi k"
  by (simp add: pow2_def power_int_def inverse_eq_divide power_one_over)

lemma pow2_pos: "0 < pow2 k"
  by (simp add: pow2_powi)

lemma pow2_add: "pow2 (a + b) = pow2 a * pow2 b"
  by (simp add: pow2_powi power_int_add)

lemma pow2_mono: "a \<le> b \<Longrightarrow> pow2 a \<le> pow2 b"
  by (simp add: pow2_powi power_int_increasing)

lemma pow2_strict_mono: "a < b \<Longrightarrow> pow2 a < pow2 b"
  by (simp add: pow2_powi power_int_strict_increasing)

lemma pow2_nat: "pow2 (int n) = 2 ^ n"
  by (simp add: pow2_def)

lemma rne_of_int: "rne (of_int n) = n"
  by (simp add: rne_def)

lemma rne_err: "\<bar>of_int (rne x) - x\<bar> \<le> 1 / 2"
  unfolding rne_def Let_def by (auto simp: abs_if) linarith+

lemma rne_unique:
  assumes "\<bar>x - of_int m\<bar> < 1 / 2"
  shows "rne x = m"
proof -
  have "\<bar>of_int (rne x) - (of_int m :: rat)\<bar> < 1"
    using rne_err [of x] assms by linarith
  then have "\<bar>(of_int (rne x - m) :: rat)\<bar> < 1" by simp
  then have "\<bar>rne x - m\<bar> < 1"
    by (metis of_int_abs of_int_less_1_iff)
  then show ?thesis by linarith
qed

lemma rne_mono:
  assumes "x \<le> y"
  shows "rne x \<le> rne y"
proof (cases "\<lfloor>x\<rfloor> = \<lfloor>y\<rfloor>")
  case True
  then show ?thesis using assms unfolding rne_def Let_def by auto
next
  case False
  with assms have lt: "\<lfloor>x\<rfloor> < \<lfloor>y\<rfloor>" using floor_mono [OF assms] by linarith
  have "rne x \<le> \<lfloor>x\<rfloor> + 1" unfolding rne_def Let_def by auto
  moreover have "\<lfloor>y\<rfloor> \<le> rne y" unfolding rne_def Let_def by auto
  ultimately show ?thesis using lt by linarith
qed

lemma rne_neg: "rne (- x) = - rne x"
proof (cases "x = of_int \<lfloor>x\<rfloor>")
  case True
  then obtain n where "x = of_int n" by metis
  then have "- x = of_int (- n)" by simp
  then show ?thesis using \<open>x = of_int n\<close> rne_of_int by metis
next
  case False
  then have c: "\<lceil>x\<rceil> = \<lfloor>x\<rfloor> + 1"
    by (metis ceiling_altdef)
  have f: "\<lfloor>- x\<rfloor> = - \<lfloor>x\<rfloor> - 1"
    using c by (simp add: floor_minus)
  show ?thesis
    unfolding rne_def Let_def f by (auto simp: algebra_simps)
qed

lemma ilog2_bounds:
  assumes "0 < x"
  shows "pow2 (ilog2 x) \<le> x \<and> x < pow2 (ilog2 x + 1)"
proof -
  obtain n d where q: "quotient_of x = (n, d)" by (cases "quotient_of x")
  have d: "0 < d" using q quotient_of_denom_pos by blast
  have x: "x = of_int n / of_int d" using q quotient_of_div by blast
  have n: "0 < n" using assms d x by (simp add: zero_less_divide_iff)
  define bn where "bn = bitlen n"
  define bd where "bd = bitlen d"
  have bn1: "1 \<le> bn" using n unfolding bn_def by (simp add: bitlen_alt_def)
  have bd1: "1 \<le> bd" using d unfolding bd_def by (simp add: bitlen_alt_def)
  have nb: "2 ^ nat (bn - 1) \<le> n" "n < 2 ^ nat bn"
    using bitlen_bounds [OF n] unfolding bn_def by auto
  have db: "2 ^ nat (bd - 1) \<le> d" "d < 2 ^ nat bd"
    using bitlen_bounds [OF d] unfolding bd_def by auto
  have nbr: "pow2 (bn - 1) \<le> of_int n" "of_int n < pow2 bn"
  proof -
    have "(of_int (2 ^ nat (bn - 1)) :: rat) \<le> of_int n" using nb(1) by (simp only: of_int_le_iff)
    then show "pow2 (bn - 1) \<le> of_int n" using bn1 by (simp add: pow2_def)
    have "(of_int n :: rat) < of_int (2 ^ nat bn)" using nb(2) by (simp only: of_int_less_iff)
    then show "of_int n < pow2 bn" using bn1 by (simp add: pow2_def)
  qed
  have dbr: "pow2 (bd - 1) \<le> of_int d" "of_int d < pow2 bd"
  proof -
    have "(of_int (2 ^ nat (bd - 1)) :: rat) \<le> of_int d" using db(1) by (simp only: of_int_le_iff)
    then show "pow2 (bd - 1) \<le> of_int d" using bd1 by (simp add: pow2_def)
    have "(of_int d :: rat) < of_int (2 ^ nat bd)" using db(2) by (simp only: of_int_less_iff)
    then show "of_int d < pow2 bd" using bd1 by (simp add: pow2_def)
  qed
  have dpos: "(0::rat) < of_int d" using d by simp
  have lo: "pow2 (bn - bd - 1) < x"
  proof -
    have "pow2 (bn - bd - 1) * of_int d < pow2 (bn - bd - 1) * pow2 bd"
      using dbr(2) pow2_pos by simp
    also have "\<dots> = pow2 (bn - 1)" by (simp flip: pow2_add)
    also have "\<dots> \<le> of_int n" by (rule nbr(1))
    finally show ?thesis using dpos unfolding x by (simp add: pos_less_divide_eq)
  qed
  have hi: "x < pow2 (bn - bd + 1)"
  proof -
    have "of_int n < pow2 bn" by (rule nbr(2))
    also have "\<dots> = pow2 (bn - bd + 1) * pow2 (bd - 1)" by (simp flip: pow2_add)
    also have "\<dots> \<le> pow2 (bn - bd + 1) * of_int d"
      using dbr(1) pow2_pos by simp
    finally show ?thesis using dpos unfolding x by (simp add: pos_divide_less_eq)
  qed
  have il: "ilog2 x = (if pow2 (bn - bd) \<le> x then bn - bd else bn - bd - 1)"
    unfolding ilog2_def q bn_def bd_def by (simp add: Let_def)
  show ?thesis
  proof (cases "pow2 (bn - bd) \<le> x")
    case True
    then show ?thesis using hi il by simp
  next
    case False
    then show ?thesis using lo il by simp
  qed
qed

lemma ilog2_unique:
  assumes "pow2 e \<le> x" "x < pow2 (e + 1)"
  shows "ilog2 x = e"
proof -
  have x: "0 < x" using assms(1) pow2_pos [of e] by linarith
  note b = ilog2_bounds [OF x]
  have "pow2 e < pow2 (ilog2 x + 1)" using assms(1) b by linarith
  then have 1: "e < ilog2 x + 1" using pow2_mono [of "ilog2 x + 1" e] by (cases "e < ilog2 x + 1") auto
  have "pow2 (ilog2 x) < pow2 (e + 1)" using assms(2) b by linarith
  then have 2: "ilog2 x < e + 1" using pow2_mono [of "e + 1" "ilog2 x"] by (cases "ilog2 x < e + 1") auto
  from 1 2 show ?thesis by linarith
qed

lemma ilog2_mono:
  assumes "0 < x" "x \<le> y"
  shows "ilog2 x \<le> ilog2 y"
proof -
  have y: "0 < y" using assms by linarith
  have "pow2 (ilog2 x) < pow2 (ilog2 y + 1)"
    using ilog2_bounds [OF assms(1)] ilog2_bounds [OF y] assms(2) by linarith
  then show ?thesis using pow2_mono [of "ilog2 y + 1" "ilog2 x"] by (cases "ilog2 x < ilog2 y + 1") auto
qed


lemma fexp_neg: "fexp (- x) = fexp x"
  by (simp add: fexp_def)

lemma fl_neg: "fl (- x) = - fl x"
  by (simp add: fl_def fexp_neg rne_neg)

lemma fl_zero: "fl 0 = 0"
  by (simp add: fl_def)

lemma rne_zero: "rne 0 = 0"
  using rne_of_int [of 0] by simp

lemma fl_nonneg:
  assumes "0 \<le> x"
  shows "0 \<le> fl x"
proof (cases "x = 0")
  case True
  then show ?thesis by (simp add: fl_zero)
next
  case False
  have "0 \<le> x / pow2 (fexp x)" using assms pow2_pos [of "fexp x"] by simp
  then have "rne 0 \<le> rne (x / pow2 (fexp x))" by (rule rne_mono)
  then have "0 \<le> rne (x / pow2 (fexp x))" by (simp add: rne_zero)
  then show ?thesis using False pow2_pos [of "fexp x"] by (simp add: fl_def)
qed

lemma fexp_mono:
  assumes "0 < x" "x \<le> y"
  shows "fexp x \<le> fexp y"
proof -
  have "ilog2 x \<le> ilog2 y" using assms by (rule ilog2_mono)
  then show ?thesis using assms by (simp add: fexp_def)
qed

lemma rne_pow2: "rne (2 ^ n) = 2 ^ n"
  using rne_of_int [of "2 ^ n"] by simp

lemma fl_mono_pos:
  assumes x: "0 < x" and xy: "x \<le> y"
  shows "fl x \<le> fl y"
proof -
  have y: "0 < y" using x xy by linarith
  define ex where "ex = fexp x"
  define ey where "ey = fexp y"
  have exy: "ex \<le> ey" unfolding ex_def ey_def using x xy by (rule fexp_mono)
  have flx: "fl x = of_int (rne (x / pow2 ex)) * pow2 ex"
    using x by (simp add: fl_def ex_def)
  have fly: "fl y = of_int (rne (y / pow2 ey)) * pow2 ey"
    using y by (simp add: fl_def ey_def)
  show ?thesis
  proof (cases "ex = ey")
    case True
    have "x / pow2 ey \<le> y / pow2 ey" using xy pow2_pos [of ey] by (simp add: divide_right_mono)
    then have "rne (x / pow2 ey) \<le> rne (y / pow2 ey)" by (rule rne_mono)
    then have "(of_int (rne (x / pow2 ey)) :: rat) \<le> of_int (rne (y / pow2 ey))" by simp
    then show ?thesis unfolding flx fly True using pow2_pos [of ey] by (simp add: mult_right_mono)
  next
    case False
    with exy have lt: "ex + 1 \<le> ey" by linarith
    have ex_ge: "ilog2 x - 52 \<le> ex" using x by (simp add: ex_def fexp_def)
    have "- 1074 \<le> ex" using x by (simp add: ex_def fexp_def)
    with lt have "ey \<noteq> - 1074" by linarith
    then have ey_eq: "ey = ilog2 y - 52" using y by (simp add: ey_def fexp_def max_def split: if_splits)
    have "pow2 52 * pow2 ey = pow2 (ilog2 y)" unfolding ey_eq by (simp flip: pow2_add)
    also have "\<dots> \<le> y" using ilog2_bounds [OF y] by simp
    finally have "pow2 52 \<le> y / pow2 ey" using pow2_pos [of ey] by (simp add: pos_le_divide_eq)
    then have "rne (pow2 52) \<le> rne (y / pow2 ey)" by (rule rne_mono)
    moreover have "pow2 52 = 2 ^ 52" by (simp add: pow2_def)
    ultimately have "2 ^ 52 \<le> rne (y / pow2 ey)" using rne_pow2 [of 52] by simp
    then have "(of_int (2 ^ 52) :: rat) \<le> of_int (rne (y / pow2 ey))" by (simp only: of_int_le_iff)
    then have "(2 ^ 52 :: rat) * pow2 ey \<le> fl y"
      unfolding fly using pow2_pos [of ey] by (simp add: mult_right_mono)
    then have lower: "pow2 (52 + ey) \<le> fl y"
      by (simp add: pow2_add) (simp add: pow2_def)
    have "x < pow2 (ilog2 x + 1)" using ilog2_bounds [OF x] by simp
    also have "\<dots> \<le> pow2 (53 + ex)" using ex_ge by (intro pow2_mono) linarith
    also have "\<dots> = pow2 53 * pow2 ex" by (simp add: pow2_add)
    finally have "x / pow2 ex \<le> pow2 53" using pow2_pos [of ex] by (simp add: pos_divide_le_eq)
    then have "rne (x / pow2 ex) \<le> rne (pow2 53)" by (rule rne_mono)
    moreover have "pow2 53 = 2 ^ 53" by (simp add: pow2_def)
    ultimately have "rne (x / pow2 ex) \<le> 2 ^ 53" using rne_pow2 [of 53] by simp
    then have "(of_int (rne (x / pow2 ex)) :: rat) \<le> of_int (2 ^ 53)" by (simp only: of_int_le_iff)
    then have "fl x \<le> (2 ^ 53) * pow2 ex"
      unfolding flx using pow2_pos [of ex] by (simp add: mult_right_mono)
    then have "fl x \<le> pow2 (53 + ex)"
      by (simp add: pow2_add) (simp add: pow2_def)
    also have "\<dots> \<le> pow2 (52 + ey)" using lt by (intro pow2_mono) linarith
    finally show ?thesis using lower by linarith
  qed
qed

lemma fl_mono:
  assumes "x \<le> y"
  shows "fl x \<le> fl y"
proof -
  consider "0 < x" | "x \<le> 0" "0 \<le> y" | "y < 0" by linarith
  then show ?thesis
  proof cases
    case 1
    then show ?thesis using assms by (rule fl_mono_pos)
  next
    case 2
    have "fl x \<le> 0" using fl_nonneg [of "- x"] 2(1) by (simp add: fl_neg)
    moreover have "0 \<le> fl y" using 2(2) by (rule fl_nonneg)
    ultimately show ?thesis by linarith
  next
    case 3
    have "fl (- y) \<le> fl (- x)" using 3 assms by (intro fl_mono_pos) auto
    then show ?thesis by (simp add: fl_neg)
  qed
qed

lemma fl_repr:
  assumes m: "\<bar>m\<bar> < 2 ^ 53" and e: "- 1074 \<le> e"
  shows "fl (of_int m * pow2 e) = of_int m * pow2 e"
proof (cases "m = 0")
  case True
  then show ?thesis by (simp add: fl_zero)
next
  case False
  define x where "x = of_int m * pow2 e"
  have ax: "\<bar>x\<bar> = of_int \<bar>m\<bar> * pow2 e"
    unfolding x_def using pow2_pos [of e] by (simp add: abs_mult)
  have xpos: "0 < \<bar>x\<bar>" using False pow2_pos [of e] unfolding x_def by simp
  have "(of_int \<bar>m\<bar> :: rat) < of_int (2 ^ 53)" using m by (simp only: of_int_less_iff)
  then have "\<bar>x\<bar> < 2 ^ 53 * pow2 e" unfolding ax using pow2_pos [of e] by simp
  also have "\<dots> = pow2 (53 + e)" by (simp add: pow2_add) (simp add: pow2_def)
  finally have "pow2 (ilog2 \<bar>x\<bar>) < pow2 (53 + e)" using ilog2_bounds [OF xpos] by linarith
  then have "ilog2 \<bar>x\<bar> < 53 + e"
    using pow2_mono [of "53 + e" "ilog2 \<bar>x\<bar>"] by (cases "ilog2 \<bar>x\<bar> < 53 + e") auto
  then have g: "fexp x \<le> e" using e by (simp add: fexp_def)
  define g where "g = fexp x"
  have "pow2 e = pow2 (e - g) * pow2 g" by (simp flip: pow2_add)
  moreover have "pow2 (e - g) = 2 ^ nat (e - g)" using g by (simp add: pow2_def g_def)
  ultimately have pe: "pow2 e = 2 ^ nat (e - g) * pow2 g" by simp
  have "x / pow2 g = of_int m * 2 ^ nat (e - g)"
    unfolding x_def pe using pow2_pos [of g] by simp
  also have "\<dots> = of_int (m * 2 ^ nat (e - g))" by simp
  finally have "rne (x / pow2 g) = m * 2 ^ nat (e - g)" by (simp only: rne_of_int)
  then have "fl x = of_int (m * 2 ^ nat (e - g)) * pow2 g"
    using xpos by (simp add: fl_def g_def)
  also have "\<dots> = x" unfolding x_def pe by simp
  finally show ?thesis unfolding x_def .
qed

lemma fl_int:
  assumes "\<bar>n\<bar> \<le> 2 ^ 53"
  shows "fl (of_int n) = of_int n"
proof (cases "\<bar>n\<bar> < 2 ^ 53")
  case True
  then show ?thesis using fl_repr [of n 0] by (simp add: pow2_def)
next
  case False
  with assms have "n = 2 ^ 53 \<or> n = - (2 ^ 53)" by linarith
  moreover have "fl (2 ^ 53) = 2 ^ 53" using fl_repr [of 1 53] by (simp add: pow2_def)
  ultimately show ?thesis by (auto simp: fl_neg)
qed

lemma fl_pow2:
  assumes "- 1074 \<le> k"
  shows "fl (pow2 k) = pow2 k"
  using fl_repr [of 1 k] assms by simp

lemma fl_err:
  "\<bar>fl x - x\<bar> \<le> pow2 (fexp x) / 2"
proof (cases "x = 0")
  case True
  then show ?thesis using pow2_pos [of "fexp 0"] by (simp add: fl_zero)
next
  case False
  define p where "p = pow2 (fexp x)"
  have p: "0 < p" unfolding p_def by (rule pow2_pos)
  have "fl x - x = (of_int (rne (x / p)) - x / p) * p"
    using False p by (simp add: fl_def p_def algebra_simps)
  then have "\<bar>fl x - x\<bar> = \<bar>of_int (rne (x / p)) - x / p\<bar> * p"
    using p by (simp add: abs_mult)
  also have "\<dots> \<le> (1 / 2) * p"
    using rne_err [of "x / p"] p by (intro mult_right_mono) auto
  finally show ?thesis by (simp add: p_def)
qed

lemma fl_err_bound:
  assumes "\<bar>x\<bar> \<le> pow2 k" "- 1022 \<le> k"
  shows "\<bar>fl x - x\<bar> \<le> pow2 (k - 53)"
proof (cases "x = 0")
  case True
  then show ?thesis using pow2_pos [of "k - 53"] by (simp add: fl_zero)
next
  case False
  then have xpos: "0 < \<bar>x\<bar>" by simp
  have "pow2 (ilog2 \<bar>x\<bar>) < pow2 (k + 1)"
    using ilog2_bounds [OF xpos] assms(1) pow2_strict_mono [of k "k + 1"] by linarith
  then have "ilog2 \<bar>x\<bar> < k + 1"
    using pow2_mono [of "k + 1" "ilog2 \<bar>x\<bar>"] by (cases "ilog2 \<bar>x\<bar> < k + 1") auto
  then have "fexp x \<le> k - 52" using assms(2) by (simp add: fexp_def)
  then have "pow2 (fexp x) \<le> pow2 (k - 52)" by (rule pow2_mono)
  moreover have "pow2 (k - 52) = 2 * pow2 (k - 53)"
    using pow2_add [of 1 "k - 53"] by (simp add: pow2_def)
  ultimately show ?thesis using fl_err [of x] by linarith
qed

lemma fl_abs_le:
  assumes "\<bar>x\<bar> \<le> pow2 k" "- 1074 \<le> k"
  shows "\<bar>fl x\<bar> \<le> pow2 k"
proof -
  have "x \<le> pow2 k" "- pow2 k \<le> x" using assms(1) by linarith+
  then have "fl x \<le> fl (pow2 k)" "fl (- pow2 k) \<le> fl x" by (auto intro: fl_mono)
  then show ?thesis using fl_pow2 [OF assms(2)] by (simp add: fl_neg abs_le_iff)
qed

lemma fl_eqI:
  assumes "pow2 e0 \<le> \<bar>x\<bar>" "\<bar>x\<bar> < pow2 (e0 + 1)" "e = max (e0 - 52) (- 1074)"
    and "\<bar>x / pow2 e - of_int m\<bar> < 1 / 2"
  shows "fl x = of_int m * pow2 e"
proof -
  have "0 < \<bar>x\<bar>" using assms(1) pow2_pos [of e0] by linarith
  then have nz: "x \<noteq> 0" by simp
  have "ilog2 \<bar>x\<bar> = e0" using assms(1,2) by (rule ilog2_unique)
  then have "fexp x = e" using assms(3) by (simp add: fexp_def)
  moreover have "rne (x / pow2 e) = m" using assms(4) by (rule rne_unique)
  ultimately show ?thesis using nz by (simp add: fl_def)
qed

lemma rne_tie:
  assumes "x = of_int f + 1 / 2"
  shows "rne x = (if even f then f else f + 1)"
proof -
  have "\<lfloor>x\<rfloor> = f" unfolding assms by (simp add: floor_unique)
  then show ?thesis unfolding rne_def Let_def by (simp add: assms)
qed

lemma fl_eq_tieI:
  assumes "pow2 e0 \<le> \<bar>x\<bar>" "\<bar>x\<bar> < pow2 (e0 + 1)" "e = max (e0 - 52) (- 1074)"
    and "x / pow2 e = of_int f + 1 / 2" and "m = (if even f then f else f + 1)"
  shows "fl x = of_int m * pow2 e"
proof -
  have "0 < \<bar>x\<bar>" using assms(1) pow2_pos [of e0] by linarith
  then have nz: "x \<noteq> 0" by simp
  have "ilog2 \<bar>x\<bar> = e0" using assms(1,2) by (rule ilog2_unique)
  then have "fexp x = e" using assms(3) by (simp add: fexp_def)
  moreover have "rne (x / pow2 e) = m" using rne_tie [OF assms(4)] assms(5) by simp
  ultimately show ?thesis using nz by (simp add: fl_def)
qed

section \<open>Order and arithmetic of Python numbers\<close>

lemma bnd_Inr: "bnd m f = Inr y \<longleftrightarrow> (\<exists>x. m = Inr x \<and> f x = Inr y)"
  by (cases m) (simp_all add: bnd_def)

lemma fle_not_NaN: "fle a b \<Longrightarrow> a \<noteq> NaN \<and> b \<noteq> NaN"
  by (cases a; cases b) simp_all

lemma fle_refl: "a \<noteq> NaN \<Longrightarrow> fle a a"
  by (cases a) simp_all

lemma fle_trans: "fle a b \<Longrightarrow> fle b c \<Longrightarrow> fle a c"
  by (cases a; cases b; cases c) simp_all

lemma flt_fle: "flt a b \<Longrightarrow> fle a b"
  by (cases a; cases b) simp_all

lemma not_flt_fle: "\<not> flt a b \<Longrightarrow> a \<noteq> NaN \<Longrightarrow> b \<noteq> NaN \<Longrightarrow> fle b a"
  by (cases a; cases b) simp_all

lemma fmax_pos: "0 < fmax"
  by (simp add: fmax_def)

lemma fround_not_NaN: "fround x \<noteq> NaN"
  by (simp add: fround_def Let_def)

lemma fround_mono:
  assumes "x \<le> y"
  shows "fle (fround x) (fround y)"
  using fl_mono [OF assms] fmax_pos by (auto simp: fround_def Let_def)

lemma fround_exact:
  assumes "fl n = n" "\<bar>n\<bar> < fmax"
  shows "fround n = Fin n"
  using assms by (auto simp: fround_def Let_def)

lemma fround_ge:
  assumes "n \<le> x" "fl n = n" "\<bar>n\<bar> < fmax"
  shows "fle (Fin n) (fround x)"
  using fround_mono [OF assms(1)] fround_exact [OF assms(2,3)] by simp

lemma fround_le:
  assumes "x \<le> n" "fl n = n" "\<bar>n\<bar> < fmax"
  shows "fle (fround x) (Fin n)"
  using fround_mono [OF assms(1)] fround_exact [OF assms(2,3)] by simp

lemma fadd_mono:
  assumes "fle p1 p2" "fle q1 q2" "fadd p1 q1 \<noteq> NaN" "fadd p2 q2 \<noteq> NaN"
  shows "fle (fadd p1 q1) (fadd p2 q2)"
proof -
  have n: "fround x \<noteq> NaN" for x by (rule fround_not_NaN)
  have *: "fle (fround x) PInf" "fle NInf (fround x)" for x
    using n [of x] by (cases "fround x"; simp)+
  show ?thesis
    using assms by (cases p1; cases p2; cases q1; cases q2) (auto simp: * intro: fround_mono)
qed

lemma fadd_ge:
  assumes "fle (Fin n) p" "fle (Fin 0) q" "fl n = n" "\<bar>n\<bar> < fmax"
  shows "fle (Fin n) (fadd p q)"
proof -
  have "fadd (Fin n) (Fin 0) = Fin n" using assms(3,4) by (simp add: fround_exact)
  moreover have "fadd p q \<noteq> NaN" using assms(1,2) by (cases p; cases q) (simp_all add: fround_not_NaN)
  ultimately show ?thesis using fadd_mono [OF assms(1,2)] by simp
qed

lemma to_float_Inr: "to_float n = Inr p \<Longrightarrow> p = Fin (fl (of_int n)) \<and> \<bar>fl (of_int n)\<bar> < fmax"
  by (auto simp: to_float_def fround_def Let_def split: if_splits)

lemma fl_of_int_small:
  assumes "\<bar>n\<bar> \<le> 2 ^ 53"
  shows "fl (of_int n) = of_int n" "\<bar>(of_int n :: rat)\<bar> < fmax"
proof -
  show "fl (of_int n) = of_int n" using assms by (rule fl_int)
  have "\<bar>(of_int n :: rat)\<bar> = of_int \<bar>n\<bar>" by simp
  also have "\<dots> \<le> of_int (2 ^ 53)" using assms by (simp only: of_int_le_iff)
  also have "\<dots> < fmax" by (simp add: fmax_def)
  finally show "\<bar>(of_int n :: rat)\<bar> < fmax" .
qed

lemma to_float_small:
  assumes "\<bar>n\<bar> \<le> 2 ^ 53"
  shows "to_float n = Inr (Fin (of_int n))"
  using fl_of_int_small [OF assms] by (simp add: to_float_def fround_exact)

lemma as_float_ge:
  assumes "as_float a = Inr p" "py_le (PInt n) a" "\<bar>n\<bar> \<le> 2 ^ 53"
  shows "fle (Fin (of_int n)) p"
proof (cases a)
  case (PInt m)
  then have nm: "n \<le> m" using assms(2) by (simp add: py_le_def)
  from PInt assms(1) have p: "p = Fin (fl (of_int m))" using to_float_Inr by simp
  have "fl (of_int n) \<le> fl (of_int m)" using nm by (intro fl_mono) simp
  then show ?thesis using fl_of_int_small(1) [OF assms(3)] p by simp
next
  case (PFloat x)
  then show ?thesis using assms(1,2) by (simp add: py_le_def)
qed

lemma py_add_ge:
  assumes "py_add a x = Inr y" "py_le (PInt n) a" "py_le (PInt 0) x" "\<bar>n\<bar> \<le> 2 ^ 53"
  shows "py_le (PInt n) y"
proof (cases "\<exists>i j. a = PInt i \<and> x = PInt j")
  case True
  then show ?thesis using assms by (auto simp: py_le_def)
next
  case False
  then have "py_add a x = bnd (as_float a) (\<lambda>p. bnd (as_float x) (\<lambda>q. Inr (PFloat (fadd p q))))"
    by (cases a; cases x) simp_all
  with assms(1) obtain p q where pq: "as_float a = Inr p" "as_float x = Inr q" "y = PFloat (fadd p q)"
    by (auto simp: bnd_Inr)
  have 1: "fle (Fin (of_int n)) p" using pq(1) assms(2,4) by (rule as_float_ge)
  have 2: "fle (Fin 0) q" using as_float_ge [OF pq(2), of 0] assms(3) by simp
  show ?thesis unfolding pq(3) py_le_def
    using fadd_ge [OF 1 2] fl_of_int_small [OF assms(4)] by simp
qed

lemma py_max_ge: "py_le (PInt 0) (py_max (PInt 0) x)"
  by (auto simp: py_max_def py_le_def py_gt_def intro: flt_fle)

lemma py_min_le: "py_le (py_min (PInt h) x) (PInt h)"
  by (auto simp: py_min_def py_le_def py_lt_def intro: flt_fle)

lemma py_min_ge:
  assumes "py_le (PInt lo) x" "lo \<le> h"
  shows "py_le (PInt lo) (py_min (PInt h) x)"
  using assms by (auto simp: py_min_def py_le_def)

lemma simulate_fields:
  assumes "simulate mf mt r l t c = Inr res"
  shows "\<exists>d0 s1 l0 l1 r1 a0 a1.
    py_sub r (PInt 20) = Inr d0 \<and>
    py_add (PInt (if mf = ''PVC'' \<and> mt = ''PET'' then 72 else 64)) (py_max (PInt 0) d0) = Inr s1 \<and>
    complianceScore res = py_min (PInt 100) s1 \<and>
    py_sub l (PInt 10) = Inr l0 \<and> py_mul l0 (PInt 2) = Inr l1 \<and>
    py_mul d0 (lit (8 / 10)) = Inr r1 \<and>
    py_add (PInt 20) (py_max (PInt 0) l1) = Inr a0 \<and>
    py_add a0 (py_max (PInt 0) r1) = Inr a1 \<and>
    availabilityRisk res = py_min (PInt 95) a1"
  using assms unfolding simulate_def Let_def bnd_Inr
  by (auto split: if_splits)

lemma simulate_avail_range:
  assumes "simulate mf mt r l t c = Inr res"
  shows "py_le (PInt 20) (availabilityRisk res) \<and> py_le (availabilityRisk res) (PInt 95)"
proof -
  from simulate_fields [OF assms] obtain l1 r1 a0 a1 where
    a0: "py_add (PInt 20) (py_max (PInt 0) l1) = Inr a0" and
    a1: "py_add a0 (py_max (PInt 0) r1) = Inr a1" and
    av: "availabilityRisk res = py_min (PInt 95) a1" by blast
  have "py_le (PInt 20) (PInt 20)" by (simp add: py_le_def)
  then have "py_le (PInt 20) a0" using py_add_ge [OF a0 _ py_max_ge] by simp
  then have "py_le (PInt 20) a1" using py_add_ge [OF a1 _ py_max_ge] by simp
  then show ?thesis unfolding av using py_min_ge py_min_le by simp
qed

lemma simulate_compliance_range:
  assumes "simulate mf mt r l t c = Inr res"
  shows "py_le (PInt 64) (complianceScore res) \<and> py_le (complianceScore res) (PInt 100)"
proof -
  from simulate_fields [OF assms] obtain d0 s1 where
    s1: "py_add (PInt (if mf = ''PVC'' \<and> mt = ''PET'' then 72 else 64)) (py_max (PInt 0) d0) = Inr s1" and
    cs: "complianceScore res = py_min (PInt 100) s1" by blast
  have "py_le (PInt 64) (PInt (if mf = ''PVC'' \<and> mt = ''PET'' then 72 else 64))" by (simp add: py_le_def)
  then have "py_le (PInt 64) s1" using py_add_ge [OF s1 _ py_max_ge] by simp
  then show ?thesis unfolding cs using py_min_ge py_min_le by simp
qed

section \<open>The compliance score as a function of the recycled percentage\<close>

lemma py_sub_20_float: "py_sub (PFloat x) (PInt 20) = Inr (PFloat (fadd x (Fin (- 20))))"
  using to_float_small [of 20] by (simp add: bnd_def fsub_def)

lemma py_add_int_float:
  assumes "\<bar>b\<bar> \<le> 2 ^ 53"
  shows "py_add (PInt b) (PFloat y) = Inr (PFloat (fadd (Fin (of_int b)) y))"
  using to_float_small [OF assms] by (simp add: bnd_def)

lemma fadd_small:
  assumes "\<bar>i + j\<bar> \<le> 2 ^ 53"
  shows "fadd (Fin (of_int i)) (Fin (of_int j)) = Fin (of_int (i + j))"
  using fl_of_int_small [OF assms] fround_exact [of "of_int (i + j)"] by simp

lemma fadd_const_not_NaN: "x \<noteq> NaN \<Longrightarrow> fadd x (Fin c) \<noteq> NaN" "x \<noteq> NaN \<Longrightarrow> fadd (Fin c) x \<noteq> NaN"
  by (cases x; simp add: fround_not_NaN)+

lemma fadd_mono_left:
  assumes "fle x1 x2"
  shows "fle (fadd x1 (Fin c)) (fadd x2 (Fin c))"
  using assms fle_not_NaN [OF assms] by (intro fadd_mono) (simp_all add: fadd_const_not_NaN)

lemma fadd_mono_right:
  assumes "fle x1 x2"
  shows "fle (fadd (Fin c) x1) (fadd (Fin c) x2)"
  using assms fle_not_NaN [OF assms] by (intro fadd_mono) (simp_all add: fadd_const_not_NaN)

lemma flt_fle_trans: "flt a b \<Longrightarrow> fle b c \<Longrightarrow> flt a c"
  by (cases a; cases b; cases c) simp_all

lemma fle_flt_trans: "fle a b \<Longrightarrow> flt b c \<Longrightarrow> flt a c"
  by (cases a; cases b; cases c) simp_all

lemma py_min_mono:
  assumes "py_le s1 s2"
  shows "py_le (py_min (PInt h) s1) (py_min (PInt h) s2)"
proof -
  have n: "ext s1 \<noteq> NaN" "ext s2 \<noteq> NaN" using fle_not_NaN assms unfolding py_le_def by blast+
  show ?thesis
  proof (cases "py_lt s1 (PInt h)")
    case True
    then show ?thesis using assms flt_fle [of "ext s1" "ext (PInt h)"]
      by (auto simp: py_min_def py_le_def py_lt_def)
  next
    case False
    then have "fle (ext (PInt h)) (ext s1)" using n by (intro not_flt_fle) (simp_all add: py_lt_def)
    then have "fle (ext (PInt h)) (ext s2)" using assms unfolding py_le_def by (rule fle_trans)
    then show ?thesis using False by (auto simp: py_min_def py_le_def py_lt_def)
  qed
qed

text \<open>The compliance score as a function of the recycled percentage, for a base \<open>b\<close>.\<close>

lemma compliance_float:
  assumes "py_sub (PFloat x) (PInt 20) = Inr d" "py_add (PInt b) (py_max (PInt 0) d) = Inr s" "\<bar>b\<bar> \<le> 2 ^ 53"
  shows "s = (if flt (Fin 0) (fadd x (Fin (- 20)))
              then PFloat (fadd (Fin (of_int b)) (fadd x (Fin (- 20)))) else PInt b)"
proof -
  define y where "y = fadd x (Fin (- 20))"
  have d: "d = PFloat y" using assms(1) unfolding py_sub_20_float y_def by simp
  have m: "py_max (PInt 0) (PFloat y) = (if flt (Fin 0) y then PFloat y else PInt 0)"
    by (simp add: py_max_def py_gt_def)
  show ?thesis
  proof (cases "flt (Fin 0) y")
    case True
    then have "py_add (PInt b) (PFloat y) = Inr s" using assms(2) unfolding d m by (simp only: if_True)
    then have "s = PFloat (fadd (Fin (of_int b)) y)"
      unfolding py_add_int_float [OF assms(3)] by simp
    then show ?thesis using True unfolding y_def by simp
  next
    case False
    then have "s = PInt b" using assms(2) unfolding d m by auto
    then show ?thesis using False unfolding y_def by simp
  qed
qed

lemma compliance_int:
  assumes "py_sub (PInt n) (PInt 20) = Inr d" "py_add (PInt b) (py_max (PInt 0) d) = Inr s"
  shows "s = PInt (b + max 0 (n - 20))"
  using assms by (auto simp: py_max_def py_gt_def split: if_splits)

lemma compliance_lower:
  assumes "py_sub r (PInt 20) = Inr d" "py_add (PInt b) (py_max (PInt 0) d) = Inr s"
    and "\<bar>b\<bar> \<le> 2 ^ 53" "py_le (PInt k) r" "20 \<le> k" "k \<le> 56" "0 \<le> b" "b \<le> 100"
  shows "py_le (PInt (b + k - 20)) s"
proof (cases r)
  case (PInt n)
  then show ?thesis using assms compliance_int [of n d b s] by (auto simp: py_le_def)
next
  case (PFloat x)
  define y where "y = fadd x (Fin (- 20))"
  have s: "s = (if flt (Fin 0) y then PFloat (fadd (Fin (of_int b)) y) else PInt b)"
    using compliance_float [of x d b s] assms PFloat unfolding y_def by simp
  have kx: "fle (Fin (of_int k)) x" using assms(4) PFloat by (simp add: py_le_def)
  have "fle (fadd (Fin (of_int k)) (Fin (- 20))) y" unfolding y_def using kx by (rule fadd_mono_left)
  moreover have "fadd (Fin (of_int k)) (Fin (- 20)) = Fin (of_int (k - 20))"
    using fadd_small [of k "- 20"] assms(5,6) by simp
  ultimately have ky: "fle (Fin (of_int (k - 20))) y" by simp
  have "fle (fadd (Fin (of_int b)) (Fin (of_int (k - 20)))) (fadd (Fin (of_int b)) y)"
    using ky by (rule fadd_mono_right)
  moreover have "fadd (Fin (of_int b)) (Fin (of_int (k - 20))) = Fin (of_int (b + k - 20))"
    using fadd_small [of b "k - 20"] assms(5-8) by (simp add: algebra_simps)
  ultimately have 1: "fle (Fin (of_int (b + k - 20))) (fadd (Fin (of_int b)) y)" by simp
  show ?thesis
  proof (cases "flt (Fin 0) y")
    case True
    then show ?thesis using s 1 by (simp add: py_le_def)
  next
    case False
    have "y \<noteq> NaN" using ky fle_not_NaN by blast
    then have "fle y (Fin 0)" using False by (intro not_flt_fle) simp_all
    then have "fle (Fin (of_int (k - 20))) (Fin 0)" using ky fle_trans by blast
    then have "k = 20" using assms(5) by simp
    then show ?thesis using s False by (simp add: py_le_def)
  qed
qed

lemma compliance_upper:
  assumes "py_sub r (PInt 20) = Inr d" "py_add (PInt b) (py_max (PInt 0) d) = Inr s"
    and "\<bar>b\<bar> \<le> 2 ^ 53" "py_le r (PInt k)" "20 \<le> k" "k \<le> 56" "0 \<le> b" "b \<le> 100"
  shows "py_le s (PInt (b + k - 20))"
proof (cases r)
  case (PInt n)
  then show ?thesis using assms compliance_int [of n d b s] by (auto simp: py_le_def)
next
  case (PFloat x)
  define y where "y = fadd x (Fin (- 20))"
  have s: "s = (if flt (Fin 0) y then PFloat (fadd (Fin (of_int b)) y) else PInt b)"
    using compliance_float [of x d b s] assms PFloat unfolding y_def by simp
  have kx: "fle x (Fin (of_int k))" using assms(4) PFloat by (simp add: py_le_def)
  have "fle y (fadd (Fin (of_int k)) (Fin (- 20)))" unfolding y_def using kx by (rule fadd_mono_left)
  moreover have "fadd (Fin (of_int k)) (Fin (- 20)) = Fin (of_int (k - 20))"
    using fadd_small [of k "- 20"] assms(5,6) by simp
  ultimately have ky: "fle y (Fin (of_int (k - 20)))" by simp
  have "fle (fadd (Fin (of_int b)) y) (fadd (Fin (of_int b)) (Fin (of_int (k - 20))))"
    using ky by (rule fadd_mono_right)
  moreover have "fadd (Fin (of_int b)) (Fin (of_int (k - 20))) = Fin (of_int (b + k - 20))"
    using fadd_small [of b "k - 20"] assms(5-8) by (simp add: algebra_simps)
  ultimately have 1: "fle (fadd (Fin (of_int b)) y) (Fin (of_int (b + k - 20)))" by simp
  show ?thesis using s 1 assms(5) by (auto simp: py_le_def)
qed


lemma py_le_trans: "py_le a b \<Longrightarrow> py_le b c \<Longrightarrow> py_le a c"
  unfolding py_le_def by (rule fle_trans)

lemma compliance_mono:
  assumes 1: "py_sub r1 (PInt 20) = Inr d1" "py_add (PInt b) (py_max (PInt 0) d1) = Inr s1"
    and 2: "py_sub r2 (PInt 20) = Inr d2" "py_add (PInt b) (py_max (PInt 0) d2) = Inr s2"
    and le: "py_le r1 r2" and b: "b = 64 \<or> b = 72"
  shows "py_le (py_min (PInt 100) s1) (py_min (PInt 100) s2)"
proof -
  have bb: "\<bar>b\<bar> \<le> 2 ^ 53" "0 \<le> b" "b \<le> 100" using b by auto
  have low2: "py_le (PInt b) s2"
    using py_add_ge [OF 2(2) _ py_max_ge bb(1)] by (simp add: py_le_def)
  show ?thesis
  proof (cases r1)
    case i1: (PInt n1)
    have s1: "s1 = PInt (b + max 0 (n1 - 20))" using compliance_int 1 i1 by blast
    show ?thesis
    proof (cases r2)
      case i2: (PInt n2)
      have s2: "s2 = PInt (b + max 0 (n2 - 20))" using compliance_int 2 i2 by blast
      have "n1 \<le> n2" using le i1 i2 by (simp add: py_le_def)
      then have "py_le s1 s2" unfolding s1 s2 by (simp add: py_le_def)
      then show ?thesis by (rule py_min_mono)
    next
      case f2: (PFloat x2)
      show ?thesis
      proof (cases "n1 \<le> 20")
        case True
        then have "s1 = PInt b" using s1 by simp
        then have "py_le s1 s2" using low2 by simp
        then show ?thesis by (rule py_min_mono)
      next
        case False
        define k where "k = min n1 56"
        have k: "20 \<le> k" "k \<le> 56" "k \<le> n1" using False unfolding k_def by auto
        have "py_le (PInt k) (PInt n1)" using k(3) by (simp add: py_le_def)
        then have "py_le (PInt k) r2" using le i1 py_le_trans by blast
        then have lo: "py_le (PInt (b + k - 20)) s2"
          using compliance_lower [OF 2 bb(1) _ k(1,2) bb(2,3)] by simp
        show ?thesis
        proof (cases "n1 \<le> 56")
          case True
          then have "k = n1" unfolding k_def by simp
          then have "b + max 0 (n1 - 20) = b + k - 20" using \<open>\<not> n1 \<le> 20\<close> by linarith
          then have "py_le s1 s2" using lo unfolding s1 by (simp only:)
          then show ?thesis by (rule py_min_mono)
        next
          case False
          then have "k = 56" unfolding k_def by simp
          then have "b + k - 20 = b + 36" by linarith
          then have "py_le (PInt (b + 36)) s2" using lo by (simp only:)
          moreover have "py_le (PInt 100) (PInt (b + 36))" using b by (auto simp: py_le_def)
          ultimately have "py_le (PInt 100) s2" using py_le_trans by blast
          then have "py_le (PInt 100) (py_min (PInt 100) s2)" by (rule py_min_ge) simp
          moreover have "py_le (py_min (PInt 100) s1) (PInt 100)" by (rule py_min_le)
          ultimately show ?thesis using py_le_trans by blast
        qed
      qed
    qed
  next
    case f1: (PFloat x1)
    define y1 where "y1 = fadd x1 (Fin (- 20))"
    have s1: "s1 = (if flt (Fin 0) y1 then PFloat (fadd (Fin (of_int b)) y1) else PInt b)"
      using compliance_float [of x1 d1 b s1] 1 f1 bb(1) unfolding y1_def by simp
    show ?thesis
    proof (cases r2)
      case i2: (PInt n2)
      have s2: "s2 = PInt (b + max 0 (n2 - 20))" using compliance_int 2 i2 by blast
      show ?thesis
      proof (cases "56 \<le> n2")
        case True
        then have "py_min (PInt 100) s2 = PInt 100"
          using b unfolding s2 by (auto simp: py_min_def py_lt_def)
        then show ?thesis using py_min_le [of 100 s1] by simp
      next
        case False
        define k where "k = max n2 20"
        have k: "20 \<le> k" "k \<le> 56" "n2 \<le> k" using False unfolding k_def by auto
        have "py_le (PInt n2) (PInt k)" using k(3) by (simp add: py_le_def)
        then have "py_le r1 (PInt k)" using le i2 py_le_trans by blast
        then have "py_le s1 (PInt (b + k - 20))"
          using compliance_upper [OF 1 bb(1) _ k(1,2) bb(2,3)] by simp
        moreover have "b + max 0 (n2 - 20) = b + k - 20" unfolding k_def by linarith
        ultimately have "py_le s1 s2" unfolding s2 by (simp only:)
        then show ?thesis by (rule py_min_mono)
      qed
    next
      case f2: (PFloat x2)
      define y2 where "y2 = fadd x2 (Fin (- 20))"
      have s2: "s2 = (if flt (Fin 0) y2 then PFloat (fadd (Fin (of_int b)) y2) else PInt b)"
        using compliance_float [of x2 d2 b s2] 2 f2 bb(1) unfolding y2_def by simp
      have "fle x1 x2" using le f1 f2 by (simp add: py_le_def)
      then have y12: "fle y1 y2" unfolding y1_def y2_def by (rule fadd_mono_left)
      have "py_le s1 s2"
      proof (cases "flt (Fin 0) y1")
        case True
        then have t2: "flt (Fin 0) y2" using y12 flt_fle_trans by blast
        have "fle (fadd (Fin (of_int b)) y1) (fadd (Fin (of_int b)) y2)"
          using y12 by (rule fadd_mono_right)
        then show ?thesis using s1 s2 True t2 by (simp add: py_le_def)
      next
        case False
        then have "s1 = PInt b" using s1 by simp
        then show ?thesis using low2 by simp
      qed
      then show ?thesis by (rule py_min_mono)
    qed
  qed
qed

section \<open>Evaluating the simulator at concrete inputs\<close>

lemma fl_sim_r1: "rne (1125899906842625 / 140737488355328) = 8"
  by (rule rne_unique) simp

lemma fl_sim_r2: "rne (9007199254740959 / 4503599627370496) = 2"
  by (rule rne_unique) simp

lemma fl_sim_r3: "rne (0) = 0"
  by (rule rne_unique) simp

lemma fl_sim_1: "fl (27 / 25) = 607985949695017 / 562949953421312"
  by (rule trans [OF fl_eqI [where ?e0.0 = "0" and e = "- 52" and m = "4863887597560136"]]) (simp_all add: pow2_def)

lemma fl_sim_2: "fl (10) = 10"
  by (rule trans [OF fl_eqI [where ?e0.0 = "3" and e = "- 49" and m = "5629499534213120"]]) (simp_all add: pow2_def)

lemma fl_sim_3: "fl (3039929748475085 / 281474976710656) = 3039929748475085 / 281474976710656"
  by (rule trans [OF fl_eqI [where ?e0.0 = "3" and e = "- 49" and m = "6079859496950170"]]) (simp_all add: pow2_def)

lemma fl_sim_4: "fl (1) = 1"
  by (rule trans [OF fl_eqI [where ?e0.0 = "0" and e = "- 52" and m = "4503599627370496"]]) (simp_all add: pow2_def)

lemma fl_sim_5: "fl (225179981368525 / 281474976710656) = 225179981368525 / 281474976710656"
  by (rule trans [OF fl_eqI [where ?e0.0 = "- 1" and e = "- 53" and m = "7205759403792800"]]) (simp_all add: pow2_def)

lemma fl_sim_6: "fl (45035996273705 / 562949953421312) = 45035996273705 / 562949953421312"
  by (rule trans [OF fl_eqI [where ?e0.0 = "- 4" and e = "- 56" and m = "5764607523034240"]]) (simp_all add: pow2_def)

lemma fl_sim_7: "fl (100) = 100"
  by (rule trans [OF fl_eqI [where ?e0.0 = "6" and e = "- 46" and m = "7036874417766400"]]) (simp_all add: pow2_def)

lemma fl_sim_8: "fl (1125899906842625 / 140737488355328) = 1125899906842625 / 140737488355328"
  by (rule trans [OF fl_eqI [where ?e0.0 = "3" and e = "- 49" and m = "4503599627370500"]]) (simp_all add: pow2_def)

lemma fl_sim_9: "fl (4 / 5) = 3602879701896397 / 4503599627370496"
  by (rule trans [OF fl_eqI [where ?e0.0 = "- 1" and e = "- 53" and m = "7205759403792794"]]) (simp_all add: pow2_def)

lemma fl_sim_11: "fl (1 / 50) = 5764607523034235 / 288230376151711744"
  by (rule trans [OF fl_eqI [where ?e0.0 = "- 6" and e = "- 58" and m = "5764607523034235"]]) (simp_all add: pow2_def)

lemma fl_sim_12: "fl (293994983674745979 / 288230376151711744) = 2296835809958953 / 2251799813685248"
  by (rule trans [OF fl_eqI [where ?e0.0 = "0" and e = "- 52" and m = "4593671619917906"]]) (simp_all add: pow2_def)

lemma fl_sim_13: "fl (11484179049794765 / 1125899906842624) = 2871044762448691 / 281474976710656"
  by (rule trans [OF fl_eq_tieI [where ?e0.0 = "3" and e = "- 49" and f = "5742089524897382" and m = "5742089524897382"]]) (simp_all add: pow2_def)

lemma fl_sim_14: "fl (56294995342131 / 281474976710656) = 56294995342131 / 281474976710656"
  by (rule trans [OF fl_eqI [where ?e0.0 = "- 3" and e = "- 55" and m = "7205759403792768"]]) (simp_all add: pow2_def)

lemma fl_sim_15: "fl (56294995342131 / 2814749767106560) = 2882303761517107 / 144115188075855872"
  by (rule trans [OF fl_eqI [where ?e0.0 = "- 6" and e = "- 58" and m = "5764607523034214"]]) (simp_all add: pow2_def)

lemma fl_sim_16: "fl (72057594037927675 / 36028797018963968) = 9007199254740959 / 4503599627370496"
  by (rule trans [OF fl_eqI [where ?e0.0 = "0" and e = "- 52" and m = "9007199254740959"]]) (simp_all add: pow2_def)

lemma fl_sim_17: "fl (18014398509481985 / 2251799813685248) = 8"
  by (rule trans [OF fl_eqI [where ?e0.0 = "3" and e = "- 49" and m = "4503599627370496"]]) (simp_all add: pow2_def)

lemma fl_sim_18: "fl (40) = 40"
  by (rule trans [OF fl_eqI [where ?e0.0 = "5" and e = "- 47" and m = "5629499534213120"]]) (simp_all add: pow2_def)

lemma fl_sim_19: "fl (48) = 48"
  by (rule trans [OF fl_eqI [where ?e0.0 = "5" and e = "- 47" and m = "6755399441055744"]]) (simp_all add: pow2_def)

lemma fl_sim_20: "fl (3602879701896397 / 4503599627370496) = 3602879701896397 / 4503599627370496"
  by (rule trans [OF fl_eqI [where ?e0.0 = "- 1" and e = "- 53" and m = "7205759403792794"]]) (simp_all add: pow2_def)

lemma fl_sim_21: "fl (20) = 20"
  by (rule trans [OF fl_eqI [where ?e0.0 = "4" and e = "- 48" and m = "5629499534213120"]]) (simp_all add: pow2_def)

lemma fl_sim_22: "fl (93674872249306317 / 4503599627370496) = 5854679515581645 / 281474976710656"
  by (rule trans [OF fl_eqI [where ?e0.0 = "4" and e = "- 48" and m = "5854679515581645"]]) (simp_all add: pow2_def)

lemma fl_sim_23: "fl (980) = 980"
  by (rule trans [OF fl_eqI [where ?e0.0 = "9" and e = "- 43" and m = "8620171161763840"]]) (simp_all add: pow2_def)

lemma fl_sim_24: "fl (882705526964617265 / 1125899906842624) = 784"
  by (rule trans [OF fl_eqI [where ?e0.0 = "9" and e = "- 43" and m = "6896136929411072"]]) (simp_all add: pow2_def)

lemma fl_sim_25: "fl (2000) = 2000"
  by (rule trans [OF fl_eqI [where ?e0.0 = "10" and e = "- 42" and m = "8796093022208000"]]) (simp_all add: pow2_def)

lemma fl_sim_26: "fl (2784) = 2784"
  by (rule trans [OF fl_eqI [where ?e0.0 = "11" and e = "- 41" and m = "6122080743456768"]]) (simp_all add: pow2_def)

lemma fl_sim_27: "fl (- 15) = - 15"
  by (rule trans [OF fl_eqI [where ?e0.0 = "3" and e = "- 49" and m = "- 8444249301319680"]]) (simp_all add: pow2_def)

lemma fl_sim_28: "fl (- (54043195528445955 / 4503599627370496)) = - 12"
  by (rule trans [OF fl_eqI [where ?e0.0 = "3" and e = "- 49" and m = "- 6755399441055744"]]) (simp_all add: pow2_def)

lemmas fl_sim = fl_sim_r1 fl_sim_r2 fl_sim_r3 fl_sim_1 fl_sim_2 fl_sim_3 fl_sim_4 fl_sim_5 fl_sim_6 fl_sim_7 fl_sim_8 fl_sim_9 fl_sim_11 fl_sim_12 fl_sim_13 fl_sim_14 fl_sim_15 fl_sim_16 fl_sim_17 fl_sim_18 fl_sim_19 fl_sim_20 fl_sim_21 fl_sim_22 fl_sim_23 fl_sim_24 fl_sim_25 fl_sim_26 fl_sim_27 fl_sim_28

lemmas py_eval = bnd_def Let_def lit_def to_float_def fround_def fmax_def fsub_def
  py_max_def py_min_def py_gt_def py_lt_def fl_zero

lemma sim_E1: "simulate ''PVC'' ''PET'' (PInt 20) (PInt 10) False (PInt 10) =
  Inr \<lparr>complianceScore = PInt 72, costDeltaPct = 8, availabilityRisk = PInt 20, eprGapReduction = 0\<rparr>"
  by (simp add: simulate_def py_eval fl_sim)

lemma sim_E2: "simulate ''PP'' ''PP'' (PInt 30) (PInt 20) True (PInt 10) =
  Inr \<lparr>complianceScore = PInt 74, costDeltaPct = 2, availabilityRisk = PFloat (Fin (48)), eprGapReduction = 50\<rparr>"
  by (simp add: simulate_def py_eval fl_sim)

lemma sim_E3: "simulate ''PVC'' ''PET'' (PInt 21) (PInt 10) False (PInt 10) =
  Inr \<lparr>complianceScore = PInt 73, costDeltaPct = 8, availabilityRisk = PFloat (Fin (5854679515581645 / 281474976710656)), eprGapReduction = 5\<rparr>"
  by (simp add: simulate_def py_eval fl_sim)

lemma sim_E4: "simulate ''PP'' ''PP'' (PInt 1000) (PInt 1000) True (PInt 10) =
  Inr \<lparr>complianceScore = PInt 100, costDeltaPct = 2, availabilityRisk = PInt 95, eprGapReduction = 4900\<rparr>"
  by (simp add: simulate_def py_eval fl_sim)

lemma sim_E5: "simulate ''PP'' ''PP'' (PInt 5) (PInt 10) False (PInt 10) =
  Inr \<lparr>complianceScore = PInt 64, costDeltaPct = 0, availabilityRisk = PInt 20, eprGapReduction = - 75\<rparr>"
  by (simp add: simulate_def py_eval fl_sim)

section \<open>Claims about the what-if simulator\<close>

text \<open>
  Claim C1. With the base cost left at its default of 10, the call for PVC to PET, 20 percent
  recycled content, 10 days of lead time and no traceability returns compliance score 72,
  cost delta 8, availability risk 20 and EPR gap reduction 0; the call for PP to PP, 30
  percent, 20 days and traceability returns 74, 2, 48 and 50. In the second call the
  availability risk is the float 48.0, which Python holds equal to 48: it is the sum of
  the ints 20 and 20 and of the float product \<^verbatim>\<open>(30 - 20) * 0.8\<close>.
\<close>

theorem simulate_spec_examples:
  "simulate ''PVC'' ''PET'' (PInt 20) (PInt 10) False (PInt 10) =
     Inr \<lparr>complianceScore = PInt 72, costDeltaPct = 8, availabilityRisk = PInt 20,
          eprGapReduction = 0\<rparr>
   \<and> simulate ''PP'' ''PP'' (PInt 30) (PInt 20) True (PInt 10) =
     Inr \<lparr>complianceScore = PInt 74, costDeltaPct = 2, availabilityRisk = PFloat (Fin 48),
          eprGapReduction = 50\<rparr>
   \<and> val (PFloat (Fin 48)) = 48 \<and> is_integral (PFloat (Fin 48))"
proof -
  have "\<lfloor>48 :: rat\<rfloor> = 48" by simp
  then show ?thesis using sim_E1 sim_E2 by simp
qed

text \<open>
  Claim C3, as stated: the availability risk that \<^verbatim>\<open>simulate\<close> returns is an integer between
  0 and 95. It is not an integer as soon as the recycled percentage exceeds 20 by an amount
  whose product with 0.8 is not whole: \<^verbatim>\<open>recycled_risk\<close> is a float product that is added
  unrounded. For 21 percent the result is the float 20.8.
\<close>

theorem availability_risk_not_integer:
  "simulate ''PVC'' ''PET'' (PInt 21) (PInt 10) False (PInt 10) =
     Inr \<lparr>complianceScore = PInt 73, costDeltaPct = 8,
          availabilityRisk = PFloat (Fin (5854679515581645 / 281474976710656)),
          eprGapReduction = 5\<rparr>
   \<and> \<not> is_integral (PFloat (Fin (5854679515581645 / 281474976710656)))"
proof -
  have "\<lfloor>5854679515581645 / 281474976710656 :: rat\<rfloor> = 20"
    by (rule floor_unique) simp_all
  then show ?thesis using sim_E3 by simp
qed

text \<open>
  Claim C3, amended: whenever \<^verbatim>\<open>simulate\<close> returns, the availability risk is a number (an
  int or a float, not always whole) between 20 and 95 inclusive, hence between 0 and 95.
\<close>

theorem availability_risk_range:
  assumes "simulate material_from material_to recycled_pct lead_time_days traceability base_cost = Inr res"
  shows "py_le (PInt 20) (availabilityRisk res) \<and> py_le (availabilityRisk res) (PInt 95)
    \<and> py_le (PInt 0) (availabilityRisk res)"
proof -
  have "py_le (PInt 0) (PInt 20)" by (simp add: py_le_def)
  then show ?thesis using simulate_avail_range [OF assms] py_le_trans by blast
qed

theorem availability_risk_range_witness:
  "simulate ''PVC'' ''PET'' (PInt 21) (PInt 10) False (PInt 10) =
     Inr \<lparr>complianceScore = PInt 73, costDeltaPct = 8,
          availabilityRisk = PFloat (Fin (5854679515581645 / 281474976710656)),
          eprGapReduction = 5\<rparr>
   \<and> py_le (PInt 20) (PFloat (Fin (5854679515581645 / 281474976710656)))
   \<and> py_le (PFloat (Fin (5854679515581645 / 281474976710656))) (PInt 95)"
  using availability_risk_range [OF sim_E3] sim_E3 by simp

text \<open>
  Claim C4. For fixed materials, lead time, traceability and base cost, the compliance score
  that \<^verbatim>\<open>simulate\<close> returns does not decrease when the recycled percentage grows (in the
  order in which Python compares numbers, ints and floats alike), and it never exceeds 100.
\<close>

theorem compliance_score_monotone:
  "(simulate material_from material_to r1 lead_time_days traceability base_cost = Inr res1
      \<and> simulate material_from material_to r2 lead_time_days traceability base_cost = Inr res2
      \<and> py_le r1 r2
     \<longrightarrow> py_le (complianceScore res1) (complianceScore res2))
   \<and> (simulate material_from material_to r lead_time_days traceability base_cost = Inr res
     \<longrightarrow> py_le (complianceScore res) (PInt 100))"
proof (intro conjI impI)
  assume a: "simulate material_from material_to r1 lead_time_days traceability base_cost = Inr res1
      \<and> simulate material_from material_to r2 lead_time_days traceability base_cost = Inr res2
      \<and> py_le r1 r2"
  define b :: int where "b = (if material_from = ''PVC'' \<and> material_to = ''PET'' then 72 else 64)"
  have b: "b = 64 \<or> b = 72" unfolding b_def by simp
  from a simulate_fields [of material_from material_to r1 lead_time_days traceability base_cost res1]
  obtain d1 s1 where 1: "py_sub r1 (PInt 20) = Inr d1" "py_add (PInt b) (py_max (PInt 0) d1) = Inr s1"
    "complianceScore res1 = py_min (PInt 100) s1" unfolding b_def by blast
  from a simulate_fields [of material_from material_to r2 lead_time_days traceability base_cost res2]
  obtain d2 s2 where 2: "py_sub r2 (PInt 20) = Inr d2" "py_add (PInt b) (py_max (PInt 0) d2) = Inr s2"
    "complianceScore res2 = py_min (PInt 100) s2" unfolding b_def by blast
  show "py_le (complianceScore res1) (complianceScore res2)"
    unfolding 1(3) 2(3) using compliance_mono [OF 1(1,2) 2(1,2) _ b] a by blast
next
  assume "simulate material_from material_to r lead_time_days traceability base_cost = Inr res"
  then show "py_le (complianceScore res) (PInt 100)"
    using simulate_compliance_range by blast
qed

theorem compliance_score_monotone_witness:
  "simulate ''PVC'' ''PET'' (PInt 20) (PInt 10) False (PInt 10) =
     Inr \<lparr>complianceScore = PInt 72, costDeltaPct = 8, availabilityRisk = PInt 20,
          eprGapReduction = 0\<rparr>
   \<and> simulate ''PVC'' ''PET'' (PInt 21) (PInt 10) False (PInt 10) =
     Inr \<lparr>complianceScore = PInt 73, costDeltaPct = 8,
          availabilityRisk = PFloat (Fin (5854679515581645 / 281474976710656)),
          eprGapReduction = 5\<rparr>
   \<and> py_le (PInt 20) (PInt 21)
   \<and> py_le (PInt 72) (PInt 73) \<and> py_le (PInt 73) (PInt 100)"
proof -
  have le: "py_le (PInt 20) (PInt 21)" by (simp add: py_le_def)
  note t = compliance_score_monotone [where material_from = "''PVC''" and material_to = "''PET''"
      and ?r1.0 = "PInt 20" and ?r2.0 = "PInt 21" and r = "PInt 21"
      and lead_time_days = "PInt 10" and traceability = False and base_cost = "PInt 10"
      and ?res1.0 = "\<lparr>complianceScore = PInt 72, costDeltaPct = 8, availabilityRisk = PInt 20,
          eprGapReduction = 0\<rparr>"
      and ?res2.0 = "\<lparr>complianceScore = PInt 73, costDeltaPct = 8,
          availabilityRisk = PFloat (Fin (5854679515581645 / 281474976710656)),
          eprGapReduction = 5\<rparr>"
      and res = "\<lparr>complianceScore = PInt 73, costDeltaPct = 8,
          availabilityRisk = PFloat (Fin (5854679515581645 / 281474976710656)),
          eprGapReduction = 5\<rparr>"]
  show ?thesis using t sim_E1 sim_E3 le by simp
qed

text \<open>
  Claim C5. However large the lead time or the recycled percentage, the availability risk
  that \<^verbatim>\<open>simulate\<close> returns is at most 95. (An int too large for a float makes the call
  fail with OverflowError, and then nothing is returned.)
\<close>

theorem availability_risk_at_most_95:
  assumes "simulate material_from material_to recycled_pct lead_time_days traceability base_cost = Inr res"
  shows "py_le (availabilityRisk res) (PInt 95)"
  using simulate_avail_range [OF assms] by simp

theorem availability_risk_at_most_95_witness:
  "simulate ''PP'' ''PP'' (PInt 1000) (PInt 1000) True (PInt 10) =
     Inr \<lparr>complianceScore = PInt 100, costDeltaPct = 2, availabilityRisk = PInt 95,
          eprGapReduction = 4900\<rparr>
   \<and> py_le (PInt 95) (PInt 95)"
  using availability_risk_at_most_95 [OF sim_E4] sim_E4 by simp

text \<open>
  Claim C10. Whatever the materials and the recycled percentage, below the target of 20 as
  well, the compliance score that \<^verbatim>\<open>simulate\<close> returns lies between 64 and 100 inclusive.
\<close>

theorem compliance_score_at_least_64:
  assumes "simulate material_from material_to recycled_pct lead_time_days traceability base_cost = Inr res"
  shows "py_le (PInt 64) (complianceScore res) \<and> py_le (complianceScore res) (PInt 100)"
  using simulate_compliance_range [OF assms] .

theorem compliance_score_at_least_64_witness:
  "simulate ''PP'' ''PP'' (PInt 5) (PInt 10) False (PInt 10) =
     Inr \<lparr>complianceScore = PInt 64, costDeltaPct = 0, availabilityRisk = PInt 20,
          eprGapReduction = - 75\<rparr>
   \<and> py_le (PInt 64) (PInt 64) \<and> py_le (PInt 64) (PInt 100)"
  using compliance_score_at_least_64 [OF sim_E5] sim_E5 by simp



end

